theory Spec2Isabelle
  imports Main "HOL-Library.Word"
begin

section \<open>The WebSocket session of internal/server/websocket.go\<close>

text \<open>
  The file defines one session type, \<open>SocketClient\<close>, with its configuration
  \<open>SocketOption\<close>, the constructor \<open>NewSocket\<close>, the read loop \<open>ReadPump\<close>, the
  synchronised write \<open>SendMessage\<close> and the background loop \<open>heartbeat\<close>.

  Go's \<open>int\<close> and \<open>time.Duration\<close> (an \<open>int64\<close> of nanoseconds) are 64-bit words
  read as two's complement (\<open>sint\<close>), on a 64-bit platform. A \<open>string\<close> and the
  \<open>[]byte\<close> made from it are the same byte list. A point in time is a number of
  nanoseconds on an unbounded time line, and \<open>time.Time{}\<close>, which the connection
  reads as "no deadline", is \<open>None\<close>. An \<open>error\<close> and the value of a panic are
  represented by their text.
\<close>

type_synonym go_int = "64 word"
type_synonym Duration = "64 word"
type_synonym Time = int
type_synonym error = string

definition Nanosecond :: Duration where
  "Nanosecond = 1"

definition Second :: Duration where
  "Second = 1000000000"

definition PingMessage :: go_int where
  "PingMessage = 9"

definition Add :: "Time \<Rightarrow> Duration \<Rightarrow> Time" where
  "Add t d = t + sint d"

subsection \<open>Configuration\<close>

record SocketOption =
  writeReadBufferSize :: go_int
  heartbeatFailMaxTimes :: go_int
  writeDeadline :: Duration
  readDeadline :: Duration
  pingPeriod :: Duration
  pingMsg :: string

text \<open>\<open>&SocketOption{}\<close>: every field has the zero value of its type.\<close>

definition zeroOption :: SocketOption where
  "zeroOption = \<lparr>writeReadBufferSize = 0, heartbeatFailMaxTimes = 0, writeDeadline = 0,
     readDeadline = 0, pingPeriod = 0, pingMsg = []\<rparr>"

text \<open>
  A \<open>SocketOptionFunc\<close> is a function that mutates the options it is given; here it
  returns the mutated options. A \<open>nil\<close> function, whose call panics, is not among
  them.
\<close>

type_synonym SocketOptionFunc = "SocketOption \<Rightarrow> SocketOption"

definition WithWriteReadBufferSize :: "go_int \<Rightarrow> SocketOptionFunc" where
  "WithWriteReadBufferSize n = (\<lambda>opt. opt\<lparr>writeReadBufferSize := n\<rparr>)"

definition WithReadDeadline :: "Duration \<Rightarrow> SocketOptionFunc" where
  "WithReadDeadline deadline = (\<lambda>opt. opt\<lparr>readDeadline := deadline\<rparr>)"

definition WithHeartbeatFailMaxTimes :: "go_int \<Rightarrow> SocketOptionFunc" where
  "WithHeartbeatFailMaxTimes n = (\<lambda>opt. opt\<lparr>heartbeatFailMaxTimes := n\<rparr>)"

definition WithWriteDeadline :: "Duration \<Rightarrow> SocketOptionFunc" where
  "WithWriteDeadline d = (\<lambda>opt. opt\<lparr>writeDeadline := d\<rparr>)"

definition WithPingPeriod :: "Duration \<Rightarrow> SocketOptionFunc" where
  "WithPingPeriod d = (\<lambda>opt. opt\<lparr>pingPeriod := d\<rparr>)"

definition WithPingMsg :: "string \<Rightarrow> SocketOptionFunc" where
  "WithPingMsg m = (\<lambda>opt. opt\<lparr>pingMsg := m\<rparr>)"

text \<open>
  \<open>defaultOption\<close>: five tests in the order of the source, each on its own field.
  The ping payload has no test.
\<close>

definition defaultOption :: "SocketOption \<Rightarrow> SocketOption" where
  "defaultOption opts =
     (let opts = (if pingPeriod opts = 0 then opts\<lparr>pingPeriod := 20 * Second\<rparr> else opts);
          opts = (if writeDeadline opts = 0 then opts\<lparr>writeDeadline := 35 * Second\<rparr> else opts);
          opts = (if writeReadBufferSize opts = 0
                  then opts\<lparr>writeReadBufferSize := 20480\<rparr> else opts);
          opts = (if heartbeatFailMaxTimes opts = 0
                  then opts\<lparr>heartbeatFailMaxTimes := 4\<rparr> else opts);
          opts = (if readDeadline opts = 0 then opts\<lparr>readDeadline := 30 * Second\<rparr> else opts)
      in opts)"

subsection \<open>The session and what it does to the outside\<close>

text \<open>
  The connection, the lock and the ticker are outside the program. What the session does
  to them is recorded, in order, in the field \<open>trace\<close>, which the source does not have;
  what they answer is an input of each operation.
\<close>

datatype event =
    Lock
  | Unlock
  | SetWriteDeadline Time
  | WriteMessage go_int string
  | SetReadDeadline "Time option"
  | SetPongHandler
  | ReadMessage
  | NewTicker Duration
  | TickerStop

record SocketClient =
  Conn :: nat
  option :: SocketOption
  Send :: go_int
  HeartbeatFailTimes :: go_int
  trace :: "event list"

definition emit :: "event list \<Rightarrow> SocketClient \<Rightarrow> SocketClient" where
  "emit es s = s\<lparr>trace := trace s @ es\<rparr>"

datatype 'a result = Ok 'a | Err error | Panic string

text \<open>
  \<open>upGrader\<close>: the upgrade is answered by the HTTP exchange (\<open>Inl\<close> its error, \<open>Inr\<close>
  the connection). \<open>make(chan []byte, n)\<close> panics for a negative \<open>n\<close>; the limits of
  memory are not modelled. The session exists with its connection or not at all, since
  \<open>NewSocket\<close> returns \<open>nil\<close> when the upgrade fails. \<open>go s.heartbeat()\<close> starts
  \<open>heartbeat\<close> below on the session returned.
\<close>

definition upGrader :: "error + nat \<Rightarrow> SocketOption \<Rightarrow> SocketClient result" where
  "upGrader upgrade opt =
     (case upgrade of
        Inl err \<Rightarrow> Err err
      | Inr wsConn \<Rightarrow>
          if sint (writeReadBufferSize opt) < 0 then Panic ''makechan: size out of range''
          else Ok \<lparr>Conn = wsConn, option = opt, Send = writeReadBufferSize opt,
                   HeartbeatFailTimes = 0, trace = []\<rparr>)"

definition NewSocket :: "error + nat \<Rightarrow> SocketOptionFunc list \<Rightarrow> SocketClient result" where
  "NewSocket upgrade opts =
     (let sOpt = foldl (\<lambda>opt f. f opt) zeroOption opts;
          sOpt = defaultOption sOpt
      in upGrader upgrade sOpt)"

subsection \<open>SendMessage\<close>

text \<open>
  One call of \<open>SendMessage\<close> meets the clock once and asks the connection at most twice:
  \<open>send_env\<close> holds the time read by \<open>time.Now()\<close> and the answers of
  \<open>SetWriteDeadline\<close> and of \<open>WriteMessage\<close> (\<open>None\<close> for \<open>nil\<close>).
\<close>

record send_env =
  now :: Time
  deadline_err :: "error option"
  write_err :: "error option"

definition SendMessage ::
  "send_env \<Rightarrow> go_int \<Rightarrow> string \<Rightarrow> SocketClient \<Rightarrow> SocketClient \<times> error option" where
  "SendMessage env messageType message s =
     (let s = emit [Lock] s;
          s = emit [SetWriteDeadline (Add (now env) (writeDeadline (option s)))] s
      in case deadline_err env of
           Some err \<Rightarrow> (emit [Unlock] s, Some err)
         | None \<Rightarrow>
             (let s = emit [WriteMessage messageType message] s
              in case write_err env of
                   Some err \<Rightarrow> (emit [Unlock] s, Some err)
                 | None \<Rightarrow> (emit [Unlock] s, None)))"

subsection \<open>heartbeat\<close>

text \<open>
  The closure given to \<open>SetPongHandler\<close>; the connection calls it when a pong arrives.
  The result of \<open>SetReadDeadline\<close> is dropped by the source.
\<close>

definition pongHandler :: "Time \<Rightarrow> string \<Rightarrow> SocketClient \<Rightarrow> SocketClient \<times> error option" where
  "pongHandler t receivedPong s =
     (if sint (readDeadline (option s)) > sint Nanosecond
      then (emit [SetReadDeadline (Some (Add t (readDeadline (option s))))] s, None)
      else (emit [SetReadDeadline None] s, None))"

datatype hb_exit = Stopped | Waiting | HbPanic string

text \<open>
  The \<open>for\<close>/\<open>select\<close> loop, one \<open>send_env\<close> for each tick the ticker delivers. When
  the ticks given are used up the loop is still waiting for the next one.
\<close>

fun heartbeat_loop :: "send_env list \<Rightarrow> SocketClient \<Rightarrow> SocketClient \<times> hb_exit" where
  "heartbeat_loop [] s = (s, Waiting)"
| "heartbeat_loop (tick # ticks) s =
     (case SendMessage tick PingMessage (pingMsg (option s)) s of
        (s, Some err) \<Rightarrow>
          (let s = s\<lparr>HeartbeatFailTimes := HeartbeatFailTimes s + 1\<rparr>
           in if sint (HeartbeatFailTimes s) > sint (heartbeatFailMaxTimes (option s))
              then (s, Stopped)
              else heartbeat_loop ticks s)
      | (s, None) \<Rightarrow>
          (if sint (HeartbeatFailTimes s) > 0
           then heartbeat_loop ticks (s\<lparr>HeartbeatFailTimes := HeartbeatFailTimes s - 1\<rparr>)
           else heartbeat_loop ticks s))"

text \<open>
  \<open>time.NewTicker\<close> panics unless the period is positive. The deferred \<open>ticker.Stop()\<close>
  runs when the loop returns.
\<close>

definition heartbeat :: "Time \<Rightarrow> send_env list \<Rightarrow> SocketClient \<Rightarrow> SocketClient \<times> hb_exit" where
  "heartbeat t0 ticks s =
     (if sint (pingPeriod (option s)) \<le> 0
      then (s, HbPanic ''non-positive interval for NewTicker'')
      else
        (let s = emit [NewTicker (pingPeriod (option s))] s;
             s = emit [SetReadDeadline (Some (Add t0 (readDeadline (option s))))] s;
             s = emit [SetPongHandler] s
         in case heartbeat_loop ticks s of
              (s, Stopped) \<Rightarrow> (emit [TickerStop] s, Stopped)
            | (s, ex) \<Rightarrow> (s, ex)))"

subsection \<open>ReadPump\<close>

text \<open>
  The handler is an interface: any implementation, here three functions on a state of
  the handler's own, each returning the new state and the value of the panic if it
  panicked. \<open>calls\<close> lists the calls made to the handler, in order.
\<close>

record 'h MessageHandler =
  OnMessage :: "go_int \<Rightarrow> string \<Rightarrow> 'h \<Rightarrow> 'h \<times> string option"
  OnError :: "error \<Rightarrow> 'h \<Rightarrow> 'h \<times> string option"
  OnClose :: "'h \<Rightarrow> 'h \<times> string option"

datatype call = CallOnMessage go_int string | CallOnError error | CallOnClose

text \<open>What one call of \<open>s.Conn.ReadMessage()\<close> does: a frame, an error, or a panic.\<close>

datatype read_result = ReadOk go_int string | ReadFail error | ReadPanics string

record 'h pump =
  client :: SocketClient
  calls :: "call list"
  hstate :: 'h

datatype loop_exit = Break | Panicking string | Reading

text \<open>
  The \<open>for\<close> loop of \<open>ReadPump\<close> on the results of the successive reads. When the
  results given are used up the loop is blocked in the next read.
\<close>

fun ReadPump_loop ::
  "'h MessageHandler \<Rightarrow> read_result list \<Rightarrow> 'h pump \<Rightarrow> 'h pump \<times> loop_exit" where
  "ReadPump_loop handler [] p = (p, Reading)"
| "ReadPump_loop handler (r # rs) p =
     (let p = p\<lparr>client := emit [ReadMessage] (client p)\<rparr>
      in case r of
           ReadPanics v \<Rightarrow> (p, Panicking v)
         | ReadFail err \<Rightarrow>
             (case OnError handler err (hstate p) of
                (x, None) \<Rightarrow> (p\<lparr>calls := calls p @ [CallOnError err], hstate := x\<rparr>, Break)
              | (x, Some v) \<Rightarrow>
                  (p\<lparr>calls := calls p @ [CallOnError err], hstate := x\<rparr>, Panicking v))
         | ReadOk mt data \<Rightarrow>
             (case OnMessage handler mt data (hstate p) of
                (x, None) \<Rightarrow>
                  ReadPump_loop handler rs
                    (p\<lparr>calls := calls p @ [CallOnMessage mt data], hstate := x\<rparr>)
              | (x, Some v) \<Rightarrow>
                  (p\<lparr>calls := calls p @ [CallOnMessage mt data], hstate := x\<rparr>, Panicking v)))"

datatype pump_exit = Returned | StillReading | Panicked string

text \<open>
  \<open>ReadPump\<close> with its deferred function: a panic of the loop is recovered, reported by
  \<open>OnError\<close> and then \<open>OnClose\<close>; a panic of one of these two calls leaves \<open>ReadPump\<close>.
\<close>

definition ReadPump ::
  "'h MessageHandler \<Rightarrow> read_result list \<Rightarrow> SocketClient \<Rightarrow> 'h \<Rightarrow> 'h pump \<times> pump_exit" where
  "ReadPump handler rs s x =
     (case ReadPump_loop handler rs \<lparr>client = s, calls = [], hstate = x\<rparr> of
        (p, Reading) \<Rightarrow> (p, StillReading)
      | (p, Break) \<Rightarrow> (p, Returned)
      | (p, Panicking v) \<Rightarrow>
          (case OnError handler v (hstate p) of
             (x, Some v') \<Rightarrow> (p\<lparr>calls := calls p @ [CallOnError v], hstate := x\<rparr>, Panicked v')
           | (x, None) \<Rightarrow>
               (let p = p\<lparr>calls := calls p @ [CallOnError v], hstate := x\<rparr>
                in case OnClose handler (hstate p) of
                     (x, Some v') \<Rightarrow>
                       (p\<lparr>calls := calls p @ [CallOnClose], hstate := x\<rparr>, Panicked v')
                   | (x, None) \<Rightarrow>
                       (p\<lparr>calls := calls p @ [CallOnClose], hstate := x\<rparr>, Returned))))"

subsection \<open>Vocabulary of the properties\<close>

text \<open>
  What one call of \<open>SendMessage\<close> adds to the trace and what it returns, read off
  the answers of the connection; a probe is the call the heartbeat makes.
\<close>

definition send_events :: "SocketOption \<Rightarrow> send_env \<Rightarrow> go_int \<Rightarrow> string \<Rightarrow> event list" where
  "send_events opt env messageType message =
     [Lock, SetWriteDeadline (Add (now env) (writeDeadline opt))] @
     (case deadline_err env of Some err \<Rightarrow> [] | None \<Rightarrow> [WriteMessage messageType message]) @
     [Unlock]"

definition send_result :: "send_env \<Rightarrow> error option" where
  "send_result env = (case deadline_err env of Some err \<Rightarrow> Some err | None \<Rightarrow> write_err env)"

definition probe_events :: "SocketOption \<Rightarrow> send_env \<Rightarrow> event list" where
  "probe_events opt env = send_events opt env PingMessage (pingMsg opt)"

definition probe_fails :: "send_env \<Rightarrow> bool" where
  "probe_fails env = (send_result env \<noteq> None)"

definition is_write :: "event \<Rightarrow> bool" where
  "is_write e = (case e of WriteMessage mt m \<Rightarrow> True | _ \<Rightarrow> False)"

definition write_attempts :: "event list \<Rightarrow> nat" where
  "write_attempts tr = length (filter is_write tr)"

definition send_calls :: "event list \<Rightarrow> nat" where
  "send_calls tr = length (filter (\<lambda>e. e = Lock) tr)"

text \<open>
  The six option constructors by name, so that a property can say which fields a list
  of options sets: \<open>mutator\<close> gives the \<open>SocketOptionFunc\<close> of a name,
  \<open>lastSet\<close> the value the list gives a field last, if any, and \<open>or_default\<close>
  what a default makes of it.
\<close>

datatype named_option =
    OptWriteReadBufferSize go_int
  | OptReadDeadline Duration
  | OptHeartbeatFailMaxTimes go_int
  | OptWriteDeadline Duration
  | OptPingPeriod Duration
  | OptPingMsg string

fun mutator :: "named_option \<Rightarrow> SocketOptionFunc" where
  "mutator (OptWriteReadBufferSize n) = WithWriteReadBufferSize n"
| "mutator (OptReadDeadline d) = WithReadDeadline d"
| "mutator (OptHeartbeatFailMaxTimes n) = WithHeartbeatFailMaxTimes n"
| "mutator (OptWriteDeadline d) = WithWriteDeadline d"
| "mutator (OptPingPeriod d) = WithPingPeriod d"
| "mutator (OptPingMsg m) = WithPingMsg m"

fun asWriteReadBufferSize :: "named_option \<Rightarrow> go_int option" where
  "asWriteReadBufferSize (OptWriteReadBufferSize n) = Some n"
| "asWriteReadBufferSize _ = None"

fun asReadDeadline :: "named_option \<Rightarrow> Duration option" where
  "asReadDeadline (OptReadDeadline d) = Some d"
| "asReadDeadline _ = None"

fun asHeartbeatFailMaxTimes :: "named_option \<Rightarrow> go_int option" where
  "asHeartbeatFailMaxTimes (OptHeartbeatFailMaxTimes n) = Some n"
| "asHeartbeatFailMaxTimes _ = None"

fun asWriteDeadline :: "named_option \<Rightarrow> Duration option" where
  "asWriteDeadline (OptWriteDeadline d) = Some d"
| "asWriteDeadline _ = None"

fun asPingPeriod :: "named_option \<Rightarrow> Duration option" where
  "asPingPeriod (OptPingPeriod d) = Some d"
| "asPingPeriod _ = None"

fun asPingMsg :: "named_option \<Rightarrow> string option" where
  "asPingMsg (OptPingMsg m) = Some m"
| "asPingMsg _ = None"

fun lastSet :: "(named_option \<Rightarrow> 'a option) \<Rightarrow> named_option list \<Rightarrow> 'a option" where
  "lastSet sel [] = None"
| "lastSet sel (x # xs) = (case lastSet sel xs of Some v \<Rightarrow> Some v | None \<Rightarrow> sel x)"

definition or_default :: "64 word \<Rightarrow> 64 word option \<Rightarrow> 64 word" where
  "or_default d v = (case v of None \<Rightarrow> d | Some x \<Rightarrow> if x = 0 then d else x)"

text \<open>
  For the read loop: a frame as the result of a read and as the call that delivers it,
  the handler's state after a run of frames, the state in which \<open>ReadPump\<close> enters
  its loop, and the exits of the loop that are panics.
\<close>

definition frame :: "go_int \<times> string \<Rightarrow> read_result" where
  "frame f = ReadOk (fst f) (snd f)"

definition deliver :: "go_int \<times> string \<Rightarrow> call" where
  "deliver f = CallOnMessage (fst f) (snd f)"

definition handle_all :: "'h MessageHandler \<Rightarrow> 'h \<Rightarrow> (go_int \<times> string) list \<Rightarrow> 'h" where
  "handle_all handler x fs = foldl (\<lambda>x f. fst (OnMessage handler (fst f) (snd f) x)) x fs"

definition start :: "SocketClient \<Rightarrow> 'h \<Rightarrow> 'h pump" where
  "start s x = \<lparr>client = s, calls = [], hstate = x\<rparr>"

definition is_fault :: "loop_exit \<Rightarrow> bool" where
  "is_fault ex = (case ex of Panicking v \<Rightarrow> True | _ \<Rightarrow> False)"

section \<open>Properties\<close>

subsection \<open>Auxiliary facts\<close>

lemma emit_simps [simp]:
  "option (emit es s) = option s"
  "HeartbeatFailTimes (emit es s) = HeartbeatFailTimes s"
  "Conn (emit es s) = Conn s"
  "Send (emit es s) = Send s"
  "trace (emit es s) = trace s @ es"
  by (simp_all add: emit_def)

lemma emit_emit: "emit es (emit ds s) = emit (ds @ es) s"
  by (simp add: emit_def)

lemma SendMessage_eq:
  "SendMessage env mt m s = (emit (send_events (option s) env mt m) s, send_result env)"
  by (simp add: SendMessage_def send_events_def send_result_def emit_emit Let_def
      split: option.splits)

lemma sint_succ: "sint (f :: 64 word) < 2 ^ 63 - 1 \<Longrightarrow> sint (f + 1) = sint f + 1"
  using sint_ge [of f]
  by (simp add: sint_word_ariths signed_take_bit_int_eq_self)

lemma sint_pred: "0 < sint (f :: 64 word) \<Longrightarrow> sint (f - 1) = sint f - 1"
  using sint_lt [of f]
  by (simp add: sint_word_ariths signed_take_bit_int_eq_self)

text \<open>One turn of the loop, with the call of SendMessage replaced by what it does.\<close>

lemma heartbeat_loop_fail:
  "probe_fails tick \<Longrightarrow>
   heartbeat_loop (tick # ticks) s =
     (let s' = (emit (probe_events (option s) tick) s)
                 \<lparr>HeartbeatFailTimes := HeartbeatFailTimes s + 1\<rparr>
      in if sint (HeartbeatFailTimes s + 1) > sint (heartbeatFailMaxTimes (option s))
         then (s', Stopped) else heartbeat_loop ticks s')"
  by (auto simp: SendMessage_eq probe_events_def probe_fails_def Let_def)

lemma heartbeat_loop_success:
  "\<not> probe_fails tick \<Longrightarrow>
   heartbeat_loop (tick # ticks) s =
     (let s' = emit (probe_events (option s) tick) s
      in if sint (HeartbeatFailTimes s) > 0
         then heartbeat_loop ticks (s'\<lparr>HeartbeatFailTimes := HeartbeatFailTimes s - 1\<rparr>)
         else heartbeat_loop ticks s')"
  by (auto simp: SendMessage_eq probe_events_def probe_fails_def Let_def)

lemma heartbeat_loop_frame:
  "option (fst (heartbeat_loop ticks s)) = option s \<and>
   Conn (fst (heartbeat_loop ticks s)) = Conn s \<and>
   Send (fst (heartbeat_loop ticks s)) = Send s"
proof (induction ticks arbitrary: s)
  case Nil
  show ?case by simp
next
  case (Cons tick ticks)
  show ?case
  proof (cases "probe_fails tick")
    case True
    then show ?thesis
      by (simp add: heartbeat_loop_fail Cons.IH Let_def del: heartbeat_loop.simps)
  next
    case False
    then show ?thesis
      by (simp add: heartbeat_loop_success Cons.IH Let_def del: heartbeat_loop.simps)
  qed
qed

lemma heartbeat_loop_trace:
  "\<exists>n. trace (fst (heartbeat_loop ticks s)) =
        trace s @ concat (map (probe_events (option s)) (take n ticks))"
proof (induction ticks arbitrary: s)
  case Nil
  show ?case by simp
next
  case (Cons tick ticks)
  let ?e = "emit (probe_events (option s) tick) s"
  have step: "\<exists>n. trace (fst (heartbeat_loop ticks (?e\<lparr>HeartbeatFailTimes := c\<rparr>))) =
      trace s @ concat (map (probe_events (option s)) (take n (tick # ticks)))" for c
  proof -
    obtain n where "trace (fst (heartbeat_loop ticks (?e\<lparr>HeartbeatFailTimes := c\<rparr>))) =
        trace (?e\<lparr>HeartbeatFailTimes := c\<rparr>) @
        concat (map (probe_events (option (?e\<lparr>HeartbeatFailTimes := c\<rparr>))) (take n ticks))"
      using Cons.IH by blast
    then have "trace (fst (heartbeat_loop ticks (?e\<lparr>HeartbeatFailTimes := c\<rparr>))) =
        trace s @ concat (map (probe_events (option s)) (take (Suc n) (tick # ticks)))"
      by simp
    then show ?thesis by blast
  qed
  have stop: "\<exists>n. trace (?e\<lparr>HeartbeatFailTimes := c\<rparr>) =
      trace s @ concat (map (probe_events (option s)) (take n (tick # ticks)))" for c
    by (rule exI [of _ 1]) simp
  have keep: "?e = ?e\<lparr>HeartbeatFailTimes := HeartbeatFailTimes s\<rparr>"
    by (simp add: emit_def)
  show ?case
  proof (cases "probe_fails tick")
    case True
    then show ?thesis
      using step stop by (simp add: heartbeat_loop_fail Let_def del: heartbeat_loop.simps)
  next
    case False
    then show ?thesis
      using step [of "HeartbeatFailTimes s - 1"] step [of "HeartbeatFailTimes s"] keep
      by (simp add: heartbeat_loop_success Let_def del: heartbeat_loop.simps)
  qed
qed

lemma heartbeat_loop_append:
  "heartbeat_loop (xs @ ys) s =
     (case heartbeat_loop xs s of (s', Waiting) \<Rightarrow> heartbeat_loop ys s' | r \<Rightarrow> r)"
proof (induction xs arbitrary: s)
  case Nil
  show ?case by simp
next
  case (Cons tick xs)
  show ?case
  proof (cases "probe_fails tick")
    case True
    then show ?thesis
      using Cons.IH
      by (simp add: heartbeat_loop_fail Let_def del: heartbeat_loop.simps)
  next
    case False
    then show ?thesis
      using Cons.IH
      by (simp add: heartbeat_loop_success Let_def del: heartbeat_loop.simps)
  qed
qed

lemma heartbeat_loop_all_fail:
  "\<forall>t\<in>set ticks. probe_fails t \<Longrightarrow>
   k = nat (sint (heartbeatFailMaxTimes (option s)) - sint (HeartbeatFailTimes s)) + 1 \<Longrightarrow>
   sint (HeartbeatFailTimes s) + int (min k (length ticks)) < 2 ^ 63 \<Longrightarrow>
   snd (heartbeat_loop ticks s) = (if k \<le> length ticks then Stopped else Waiting) \<and>
   trace (fst (heartbeat_loop ticks s)) =
     trace s @ concat (map (probe_events (option s)) (take k ticks)) \<and>
   sint (HeartbeatFailTimes (fst (heartbeat_loop ticks s))) =
     sint (HeartbeatFailTimes s) + int (min k (length ticks))"
proof (induction ticks arbitrary: s k)
  case Nil
  then show ?case by simp
next
  case (Cons tick ticks)
  let ?f = "HeartbeatFailTimes s"
  let ?m = "heartbeatFailMaxTimes (option s)"
  let ?s' = "(emit (probe_events (option s) tick) s)\<lparr>HeartbeatFailTimes := ?f + 1\<rparr>"
  have fails: "probe_fails tick" and rest: "\<forall>t\<in>set ticks. probe_fails t"
    using Cons.prems(1) by simp_all
  have k: "k = nat (sint ?m - sint ?f) + 1"
    using Cons.prems(2) .
  have "sint ?f + 1 < 2 ^ 63"
    using Cons.prems(3) k by simp
  then have succ: "sint (?f + 1) = sint ?f + 1"
    by (simp add: sint_succ)
  show ?case
  proof (cases "sint ?m < sint ?f + 1")
    case True
    then have "k = 1" using k by simp
    then show ?thesis
      using fails True succ by (simp add: heartbeat_loop_fail Let_def del: heartbeat_loop.simps)
  next
    case False
    define k' where "k' = nat (sint (heartbeatFailMaxTimes (option ?s')) -
      sint (HeartbeatFailTimes ?s')) + 1"
    have kk: "k = Suc k'"
      using False k succ by (simp add: k'_def)
    have bound: "sint (HeartbeatFailTimes ?s') + int (min k' (length ticks)) < 2 ^ 63"
      using Cons.prems(3) kk succ by simp
    have ih: "snd (heartbeat_loop ticks ?s') = (if k' \<le> length ticks then Stopped else Waiting) \<and>
      trace (fst (heartbeat_loop ticks ?s')) =
        trace ?s' @ concat (map (probe_events (option ?s')) (take k' ticks)) \<and>
      sint (HeartbeatFailTimes (fst (heartbeat_loop ticks ?s'))) =
        sint (HeartbeatFailTimes ?s') + int (min k' (length ticks))"
      using Cons.IH [OF rest k'_def bound] .
    have unfold: "heartbeat_loop (tick # ticks) s = heartbeat_loop ticks ?s'"
      using fails False succ by (simp add: heartbeat_loop_fail Let_def del: heartbeat_loop.simps)
    show ?thesis
      unfolding unfold using ih kk succ by simp
  qed
qed

lemma heartbeat_loop_all_success:
  "\<forall>t\<in>set ticks. \<not> probe_fails t \<Longrightarrow> 0 \<le> sint (HeartbeatFailTimes s) \<Longrightarrow>
   snd (heartbeat_loop ticks s) = Waiting \<and>
   trace (fst (heartbeat_loop ticks s)) =
     trace s @ concat (map (probe_events (option s)) ticks) \<and>
   sint (HeartbeatFailTimes (fst (heartbeat_loop ticks s))) =
     max (sint (HeartbeatFailTimes s) - int (length ticks)) 0"
proof (induction ticks arbitrary: s)
  case Nil
  then show ?case by simp
next
  case (Cons tick ticks)
  let ?f = "HeartbeatFailTimes s"
  let ?e = "emit (probe_events (option s) tick) s"
  have ok: "\<not> probe_fails tick" and rest: "\<forall>t\<in>set ticks. \<not> probe_fails t"
    using Cons.prems(1) by simp_all
  show ?case
  proof (cases "0 < sint ?f")
    case True
    let ?s' = "?e\<lparr>HeartbeatFailTimes := ?f - 1\<rparr>"
    have pred: "sint (?f - 1) = sint ?f - 1"
      using True by (simp add: sint_pred)
    have unfold: "heartbeat_loop (tick # ticks) s = heartbeat_loop ticks ?s'"
      using ok True by (simp add: heartbeat_loop_success Let_def del: heartbeat_loop.simps)
    have "0 \<le> sint (HeartbeatFailTimes ?s')"
      using True pred by simp
    from Cons.IH [OF rest this] show ?thesis
      unfolding unfold using pred True by simp
  next
    case False
    have unfold: "heartbeat_loop (tick # ticks) s = heartbeat_loop ticks ?e"
      using ok False by (simp add: heartbeat_loop_success Let_def del: heartbeat_loop.simps)
    have "0 \<le> sint (HeartbeatFailTimes ?e)"
      using Cons.prems(2) by simp
    from Cons.IH [OF rest this] show ?thesis
      unfolding unfold using False Cons.prems(2) by simp
  qed
qed

lemma send_calls_append: "send_calls (xs @ ys) = send_calls xs + send_calls ys"
  by (simp add: send_calls_def)

lemma write_attempts_append: "write_attempts (xs @ ys) = write_attempts xs + write_attempts ys"
  by (simp add: write_attempts_def)

lemma send_calls_probes:
  "send_calls (concat (map (probe_events opt) ts)) = length ts"
  by (induction ts)
    (simp_all add: send_calls_def probe_events_def send_events_def split: option.splits)

lemma write_attempts_probes:
  "\<forall>t\<in>set ts. deadline_err t = None \<Longrightarrow>
   write_attempts (concat (map (probe_events opt) ts)) = length ts"
  by (induction ts)
    (simp_all add: write_attempts_def is_write_def probe_events_def send_events_def)

lemma heartbeat_loop_nonneg:
  "0 \<le> sint (HeartbeatFailTimes s) \<Longrightarrow> sint (HeartbeatFailTimes s) < 2 ^ 63 - 1 \<Longrightarrow>
   sint (heartbeatFailMaxTimes (option s)) < 2 ^ 63 - 1 \<Longrightarrow>
   0 \<le> sint (HeartbeatFailTimes (fst (heartbeat_loop ticks s)))"
proof (induction ticks arbitrary: s)
  case Nil
  then show ?case by simp
next
  case (Cons tick ticks)
  let ?f = "HeartbeatFailTimes s"
  let ?e = "emit (probe_events (option s) tick) s"
  show ?case
  proof (cases "probe_fails tick")
    case True
    have succ: "sint (?f + 1) = sint ?f + 1"
      using Cons.prems(2) by (simp add: sint_succ)
    show ?thesis
    proof (cases "sint (heartbeatFailMaxTimes (option s)) < sint (?f + 1)")
      case stop: True
      then show ?thesis
        using True succ Cons.prems(1)
        by (simp add: heartbeat_loop_fail Let_def del: heartbeat_loop.simps)
    next
      case False
      have "0 \<le> sint (HeartbeatFailTimes (fst (heartbeat_loop ticks
          (?e\<lparr>HeartbeatFailTimes := ?f + 1\<rparr>))))"
        using False succ Cons.prems by (intro Cons.IH) simp_all
      then show ?thesis
        using True False by (simp add: heartbeat_loop_fail Let_def del: heartbeat_loop.simps)
    qed
  next
    case False
    show ?thesis
    proof (cases "0 < sint ?f")
      case pos: True
      have pred: "sint (?f - 1) = sint ?f - 1"
        using pos by (simp add: sint_pred)
      have "0 \<le> sint (HeartbeatFailTimes (fst (heartbeat_loop ticks
          (?e\<lparr>HeartbeatFailTimes := ?f - 1\<rparr>))))"
        using pos pred Cons.prems by (intro Cons.IH) simp_all
      then show ?thesis
        using False pos by (simp add: heartbeat_loop_success Let_def del: heartbeat_loop.simps)
    next
      case zero: False
      have "0 \<le> sint (HeartbeatFailTimes (fst (heartbeat_loop ticks ?e)))"
        using Cons.prems by (intro Cons.IH) simp_all
      then show ?thesis
        using False zero by (simp add: heartbeat_loop_success Let_def del: heartbeat_loop.simps)
    qed
  qed
qed

lemma foldl_mutators:
  "writeReadBufferSize (foldl (\<lambda>opt f. f opt) opt0 (map mutator ss)) =
     (case lastSet asWriteReadBufferSize ss of Some v \<Rightarrow> v | None \<Rightarrow> writeReadBufferSize opt0)"
  "readDeadline (foldl (\<lambda>opt f. f opt) opt0 (map mutator ss)) =
     (case lastSet asReadDeadline ss of Some v \<Rightarrow> v | None \<Rightarrow> readDeadline opt0)"
  "heartbeatFailMaxTimes (foldl (\<lambda>opt f. f opt) opt0 (map mutator ss)) =
     (case lastSet asHeartbeatFailMaxTimes ss of Some v \<Rightarrow> v | None \<Rightarrow> heartbeatFailMaxTimes opt0)"
  "writeDeadline (foldl (\<lambda>opt f. f opt) opt0 (map mutator ss)) =
     (case lastSet asWriteDeadline ss of Some v \<Rightarrow> v | None \<Rightarrow> writeDeadline opt0)"
  "pingPeriod (foldl (\<lambda>opt f. f opt) opt0 (map mutator ss)) =
     (case lastSet asPingPeriod ss of Some v \<Rightarrow> v | None \<Rightarrow> pingPeriod opt0)"
  "pingMsg (foldl (\<lambda>opt f. f opt) opt0 (map mutator ss)) =
     (case lastSet asPingMsg ss of Some v \<Rightarrow> v | None \<Rightarrow> pingMsg opt0)"
proof (induction ss arbitrary: opt0)
  case Nil
  {
    case 1 show ?case by simp
  next
    case 2 show ?case by simp
  next
    case 3 show ?case by simp
  next
    case 4 show ?case by simp
  next
    case 5 show ?case by simp
  next
    case 6 show ?case by simp
  }
next
  case (Cons a ss)
  note defs = WithWriteReadBufferSize_def WithReadDeadline_def WithHeartbeatFailMaxTimes_def
    WithWriteDeadline_def WithPingPeriod_def WithPingMsg_def
  {
    case 1 show ?case by (cases a) (simp_all add: Cons.IH defs split: option.splits)
  next
    case 2 show ?case by (cases a) (simp_all add: Cons.IH defs split: option.splits)
  next
    case 3 show ?case by (cases a) (simp_all add: Cons.IH defs split: option.splits)
  next
    case 4 show ?case by (cases a) (simp_all add: Cons.IH defs split: option.splits)
  next
    case 5 show ?case by (cases a) (simp_all add: Cons.IH defs split: option.splits)
  next
    case 6 show ?case by (cases a) (simp_all add: Cons.IH defs split: option.splits)
  }
qed

lemma defaultOption_fields:
  "pingPeriod (defaultOption opts) = (if pingPeriod opts = 0 then 20 * Second else pingPeriod opts)"
  "writeDeadline (defaultOption opts) =
     (if writeDeadline opts = 0 then 35 * Second else writeDeadline opts)"
  "writeReadBufferSize (defaultOption opts) =
     (if writeReadBufferSize opts = 0 then 20480 else writeReadBufferSize opts)"
  "heartbeatFailMaxTimes (defaultOption opts) =
     (if heartbeatFailMaxTimes opts = 0 then 4 else heartbeatFailMaxTimes opts)"
  "readDeadline (defaultOption opts) =
     (if readDeadline opts = 0 then 30 * Second else readDeadline opts)"
  "pingMsg (defaultOption opts) = pingMsg opts"
  by (simp_all add: defaultOption_def Let_def)

lemma NewSocket_Ok:
  "NewSocket upgrade opts = Ok c \<Longrightarrow>
   option c = defaultOption (foldl (\<lambda>opt f. f opt) zeroOption opts) \<and>
   HeartbeatFailTimes c = 0 \<and> trace c = []"
  by (auto simp: NewSocket_def upGrader_def Let_def split: sum.splits if_splits)

lemma lastSet_None: "list_all (\<lambda>x. sel x = None) ss \<Longrightarrow> lastSet sel ss = None"
  by (induction ss) simp_all

lemma emit_inject: "(emit es s = emit ds s) = (es = ds)"
  by (metis emit_simps(5) same_append_eq)

lemma heartbeat_option: "option (fst (heartbeat t0 ticks s)) = option s"
proof (cases "sint (pingPeriod (option s)) \<le> 0")
  case True
  then show ?thesis by (simp add: heartbeat_def)
next
  case False
  let ?s = "emit [SetPongHandler] (emit [SetReadDeadline (Some (Add t0 (readDeadline (option s))))]
     (emit [NewTicker (pingPeriod (option s))] s))"
  obtain s' ex where r: "heartbeat_loop ticks ?s = (s', ex)"
    by (cases "heartbeat_loop ticks ?s")
  have "option s' = option ?s"
    using heartbeat_loop_frame [of ticks ?s] r by simp
  then show ?thesis
    using False r by (cases ex) (simp_all add: heartbeat_def Let_def)
qed

lemma probe_events_writes:
  "list_all (\<lambda>e. is_write e \<longrightarrow> e = WriteMessage PingMessage (pingMsg opt)) (probe_events opt t)"
  by (simp add: probe_events_def send_events_def is_write_def split: option.splits)

lemma probes_writes:
  "list_all (\<lambda>e. is_write e \<longrightarrow> e = WriteMessage PingMessage (pingMsg opt))
     (concat (map (probe_events opt) ts))"
  by (induction ts) (simp_all add: probe_events_writes)

lemma heartbeat_loop_writes:
  assumes "list_all (\<lambda>e. is_write e \<longrightarrow> e = WriteMessage PingMessage (pingMsg (option s))) (trace s)"
  shows "list_all (\<lambda>e. is_write e \<longrightarrow> e = WriteMessage PingMessage (pingMsg (option s)))
    (trace (fst (heartbeat_loop ticks s)))"
proof -
  obtain n where "trace (fst (heartbeat_loop ticks s)) =
      trace s @ concat (map (probe_events (option s)) (take n ticks))"
    using heartbeat_loop_trace by blast
  then show ?thesis
    using assms by (simp add: probes_writes)
qed

lemma heartbeat_writes:
  assumes "list_all (\<lambda>e. is_write e \<longrightarrow> e = WriteMessage PingMessage (pingMsg (option s))) (trace s)"
  shows "list_all (\<lambda>e. is_write e \<longrightarrow> e = WriteMessage PingMessage (pingMsg (option s)))
    (trace (fst (heartbeat t0 ticks s)))"
proof (cases "sint (pingPeriod (option s)) \<le> 0")
  case True
  then show ?thesis using assms by (simp add: heartbeat_def)
next
  case False
  let ?s = "emit [SetPongHandler] (emit [SetReadDeadline (Some (Add t0 (readDeadline (option s))))]
     (emit [NewTicker (pingPeriod (option s))] s))"
  obtain s' ex where r: "heartbeat_loop ticks ?s = (s', ex)"
    by (cases "heartbeat_loop ticks ?s")
  have "list_all (\<lambda>e. is_write e \<longrightarrow> e = WriteMessage PingMessage (pingMsg (option ?s))) (trace ?s)"
    using assms by (simp add: is_write_def)
  from heartbeat_loop_writes [OF this, of ticks]
  have "list_all (\<lambda>e. is_write e \<longrightarrow> e = WriteMessage PingMessage (pingMsg (option s))) (trace s')"
    using r by simp
  then show ?thesis
    using False r by (cases ex) (simp_all add: heartbeat_def Let_def is_write_def)
qed

lemma ReadPump_loop_option:
  "option (client (fst (ReadPump_loop handler rs p))) = option (client p)"
proof (induction rs arbitrary: p)
  case Nil
  show ?case by simp
next
  case (Cons r rs)
  show ?case
    by (cases r) (simp_all add: Let_def Cons.IH split: prod.splits option.splits)
qed

lemma ReadPump_option: "option (client (fst (ReadPump handler rs s x))) = option s"
proof -
  let ?p = "\<lparr>client = s, calls = [], hstate = x\<rparr>"
  obtain p ex where r: "ReadPump_loop handler rs ?p = (p, ex)"
    by (cases "ReadPump_loop handler rs ?p")
  have "option (client p) = option s"
    using ReadPump_loop_option [of handler rs ?p] r by simp
  then show ?thesis
    using r by (cases ex) (simp_all add: ReadPump_def Let_def split: prod.splits option.splits)
qed

lemma ReadPump_loop_frames_ok:
  "\<not> is_fault (snd (ReadPump_loop handler (map frame fs @ rs) p)) \<Longrightarrow>
   ReadPump_loop handler (map frame fs @ rs') p =
     ReadPump_loop handler rs'
       (p\<lparr>client := emit (replicate (length fs) ReadMessage) (client p),
          calls := calls p @ map deliver fs,
          hstate := handle_all handler (hstate p) fs\<rparr>)"
proof (induction fs arbitrary: p)
  case Nil
  show ?case by (simp add: handle_all_def emit_def)
next
  case (Cons f fs)
  obtain y w where y: "OnMessage handler (fst f) (snd f) (hstate p) = (y, w)"
    by (cases "OnMessage handler (fst f) (snd f) (hstate p)")
  show ?case
  proof (cases w)
    case None
    let ?p = "p\<lparr>client := emit [ReadMessage] (client p),
      calls := calls p @ [CallOnMessage (fst f) (snd f)], hstate := y\<rparr>"
    have "\<not> is_fault (snd (ReadPump_loop handler (map frame fs @ rs) ?p))"
      using Cons.prems y None by (simp add: frame_def [of f] Let_def)
    from Cons.IH [OF this] show ?thesis
      using y None
      by (simp add: frame_def [of f] deliver_def [of f] handle_all_def Let_def emit_emit
          replicate_append_same)
  next
    case (Some v)
    then show ?thesis
      using Cons.prems y by (simp add: frame_def [of f] Let_def is_fault_def)
  qed
qed

lemma ReadPump_loop_no_close:
  "CallOnClose \<notin> set (calls p) \<Longrightarrow>
   CallOnClose \<notin> set (calls (fst (ReadPump_loop handler rs p)))"
proof (induction rs arbitrary: p)
  case Nil
  then show ?case by simp
next
  case (Cons r rs)
  show ?case
    using Cons.prems
    by (cases r) (auto simp: Let_def split: prod.splits option.splits intro!: Cons.IH)
qed

lemma ReadPump_loop_break:
  "snd (ReadPump_loop handler rs p) = Break \<Longrightarrow>
   \<exists>err. calls (fst (ReadPump_loop handler rs p)) \<noteq> [] \<and>
     last (calls (fst (ReadPump_loop handler rs p))) = CallOnError err"
proof (induction rs arbitrary: p)
  case Nil
  then show ?case by simp
next
  case (Cons r rs)
  show ?case
    using Cons.prems
    by (cases r) (auto simp: Let_def split: prod.splits option.splits dest!: Cons.IH)
qed

subsection \<open>The heartbeat monitor\<close>

text \<open>
  Claim C1. When every probe fails, a monitor whose counter is 0 and whose threshold
  \<open>heartbeatFailMaxTimes\<close> is a count (not negative, and less than the greatest
  \<open>int\<close>) makes one call of \<open>SendMessage\<close> for each of the first
  \<open>heartbeatFailMaxTimes + 1\<close> ticks and then returns: the loop exits as soon as that
  many ticks have come, the ticks after them change nothing, and when it is the write
  that fails each call is one attempt to write. With fewer ticks the loop is still
  waiting, one call made for each tick.
\<close>

theorem heartbeat_stops_after_threshold:
  assumes "\<forall>t\<in>set ticks. probe_fails t"
    and "HeartbeatFailTimes s = 0"
    and "0 \<le> sint (heartbeatFailMaxTimes (option s))"
    and "sint (heartbeatFailMaxTimes (option s)) < 2 ^ 63 - 1"
    and "n = nat (sint (heartbeatFailMaxTimes (option s))) + 1"
  shows "snd (heartbeat_loop ticks s) = (if n \<le> length ticks then Stopped else Waiting) \<and>
    send_calls (trace (fst (heartbeat_loop ticks s))) = send_calls (trace s) + min n (length ticks) \<and>
    ((\<forall>t\<in>set ticks. deadline_err t = None) \<longrightarrow>
       write_attempts (trace (fst (heartbeat_loop ticks s))) =
         write_attempts (trace s) + min n (length ticks)) \<and>
    heartbeat_loop ticks s = heartbeat_loop (take n ticks) s"
proof -
  have k: "n = nat (sint (heartbeatFailMaxTimes (option s)) - sint (HeartbeatFailTimes s)) + 1"
    using assms(2,5) by simp
  have bound: "sint (HeartbeatFailTimes s) + int (min n (length xs)) < 2 ^ 63" for xs :: "send_env list"
    using assms(2,3,4,5) by simp
  note run = heartbeat_loop_all_fail [OF assms(1) k bound]
  have tr: "trace (fst (heartbeat_loop ticks s)) =
      trace s @ concat (map (probe_events (option s)) (take n ticks))"
    using run by simp
  have ex: "snd (heartbeat_loop ticks s) = (if n \<le> length ticks then Stopped else Waiting)"
    using run by simp
  have sends: "send_calls (trace (fst (heartbeat_loop ticks s))) =
      send_calls (trace s) + min n (length ticks)"
    by (simp add: tr send_calls_append send_calls_probes min.commute)
  have writes: "write_attempts (trace (fst (heartbeat_loop ticks s))) =
      write_attempts (trace s) + min n (length ticks)"
    if "\<forall>t\<in>set ticks. deadline_err t = None"
  proof -
    have "\<forall>t\<in>set (take n ticks). deadline_err t = None"
      using that by (meson in_set_takeD)
    then show ?thesis
      by (simp add: tr write_attempts_append write_attempts_probes min.commute)
  qed
  have same: "heartbeat_loop ticks s = heartbeat_loop (take n ticks) s"
  proof (cases "n \<le> length ticks")
    case True
    have fails: "\<forall>t\<in>set (take n ticks). probe_fails t"
      using assms(1) by (meson in_set_takeD)
    have "snd (heartbeat_loop (take n ticks) s) = Stopped"
      using heartbeat_loop_all_fail [OF fails k bound] True by simp
    then show ?thesis
      using heartbeat_loop_append [of "take n ticks" "drop n ticks" s]
      by (simp split: prod.splits hb_exit.splits)
  next
    case False
    then show ?thesis by simp
  qed
  show ?thesis
    using ex sends writes same by blast
qed

theorem heartbeat_stops_after_threshold_witness:
  "snd (heartbeat_loop (replicate 4 \<lparr>now = 10, deadline_err = None, write_err = Some ''broken pipe''\<rparr>)
      \<lparr>Conn = 0, option = defaultOption (WithHeartbeatFailMaxTimes 2 zeroOption),
         Send = 20480, HeartbeatFailTimes = 0, trace = []\<rparr>) = Stopped \<and>
   write_attempts (trace (fst (heartbeat_loop
      (replicate 4 \<lparr>now = 10, deadline_err = None, write_err = Some ''broken pipe''\<rparr>)
      \<lparr>Conn = 0, option = defaultOption (WithHeartbeatFailMaxTimes 2 zeroOption),
         Send = 20480, HeartbeatFailTimes = 0, trace = []\<rparr>))) = 3 \<and>
   snd (heartbeat_loop (replicate 9 \<lparr>now = 10, deadline_err = None, write_err = Some ''broken pipe''\<rparr>)
      \<lparr>Conn = 0, option = defaultOption zeroOption,
         Send = 20480, HeartbeatFailTimes = 0, trace = []\<rparr>) = Stopped \<and>
   write_attempts (trace (fst (heartbeat_loop
      (replicate 9 \<lparr>now = 10, deadline_err = None, write_err = Some ''broken pipe''\<rparr>)
      \<lparr>Conn = 0, option = defaultOption zeroOption,
         Send = 20480, HeartbeatFailTimes = 0, trace = []\<rparr>))) = 5"
proof -
  let ?tick = "\<lparr>now = 10, deadline_err = None, write_err = Some ''broken pipe''\<rparr>"
  let ?s2 = "\<lparr>Conn = 0, option = defaultOption (WithHeartbeatFailMaxTimes 2 zeroOption),
         Send = 20480, HeartbeatFailTimes = 0, trace = []\<rparr>"
  let ?s4 = "\<lparr>Conn = 0, option = defaultOption zeroOption,
         Send = 20480, HeartbeatFailTimes = 0, trace = []\<rparr>"
  have m2: "heartbeatFailMaxTimes (option ?s2) = 2"
    by (simp add: defaultOption_def WithHeartbeatFailMaxTimes_def zeroOption_def)
  have m4: "heartbeatFailMaxTimes (option ?s4) = 4"
    by (simp add: defaultOption_def zeroOption_def)
  have fails: "\<forall>t\<in>set (replicate k ?tick). probe_fails t" for k
    by (simp add: probe_fails_def send_result_def)
  have writes: "\<forall>t\<in>set (replicate k ?tick). deadline_err t = None" for k
    by simp
  have a2: "0 \<le> sint (heartbeatFailMaxTimes (option ?s2))"
    and b2: "sint (heartbeatFailMaxTimes (option ?s2)) < 2 ^ 63 - 1"
    and n2: "3 = nat (sint (heartbeatFailMaxTimes (option ?s2))) + 1"
    unfolding m2 by simp_all
  have a4: "0 \<le> sint (heartbeatFailMaxTimes (option ?s4))"
    and b4: "sint (heartbeatFailMaxTimes (option ?s4)) < 2 ^ 63 - 1"
    and n4: "5 = nat (sint (heartbeatFailMaxTimes (option ?s4))) + 1"
    unfolding m4 by simp_all
  have zero2: "HeartbeatFailTimes ?s2 = 0" and zero4: "HeartbeatFailTimes ?s4 = 0"
    by simp_all
  from heartbeat_stops_after_threshold [OF fails zero2 a2 b2 n2, of 4] writes [of 4]
  have r2: "snd (heartbeat_loop (replicate 4 ?tick) ?s2) =
      (if 3 \<le> length (replicate 4 ?tick) then Stopped else Waiting) \<and>
    write_attempts (trace (fst (heartbeat_loop (replicate 4 ?tick) ?s2))) =
      write_attempts (trace ?s2) + min 3 (length (replicate 4 ?tick))"
    by blast
  from heartbeat_stops_after_threshold [OF fails zero4 a4 b4 n4, of 9] writes [of 9]
  have r4: "snd (heartbeat_loop (replicate 9 ?tick) ?s4) =
      (if 5 \<le> length (replicate 9 ?tick) then Stopped else Waiting) \<and>
    write_attempts (trace (fst (heartbeat_loop (replicate 9 ?tick) ?s4))) =
      write_attempts (trace ?s4) + min 5 (length (replicate 9 ?tick))"
    by blast
  have empty: "write_attempts [] = 0"
    by (simp add: write_attempts_def)
  from r2 r4 show ?thesis
    by (simp add: empty)
qed

text \<open>
  Claim C2. A session starts with the counter at 0. From a counter that is not negative,
  \<open>F\<close> failed probes that do not take it past the threshold followed by \<open>K\<close>
  successful ones leave the loop running with the counter at \<open>max (c + F - K) 0\<close>,
  where \<open>c\<close> is the counter at the start: a failure adds one, a success takes one
  away from a positive counter only. Whatever the ticks, a counter that starts at 0 is
  never negative as long as the threshold is less than the greatest \<open>int\<close>.
\<close>

theorem heartbeat_counter_recovers:
  "(NewSocket upgrade opts = Ok c \<longrightarrow> HeartbeatFailTimes c = 0) \<and>
   ((\<forall>t\<in>set fs. probe_fails t) \<and> (\<forall>t\<in>set ks. \<not> probe_fails t) \<and>
    0 \<le> sint (HeartbeatFailTimes s) \<and>
    sint (HeartbeatFailTimes s) + int (length fs) \<le> sint (heartbeatFailMaxTimes (option s)) \<longrightarrow>
      snd (heartbeat_loop (fs @ ks) s) = Waiting \<and>
      sint (HeartbeatFailTimes (fst (heartbeat_loop (fs @ ks) s))) =
        max (sint (HeartbeatFailTimes s) + int (length fs) - int (length ks)) 0) \<and>
   (HeartbeatFailTimes s' = 0 \<and> sint (heartbeatFailMaxTimes (option s')) < 2 ^ 63 - 1 \<longrightarrow>
      0 \<le> sint (HeartbeatFailTimes (fst (heartbeat_loop ticks s'))))"
proof (intro conjI impI)
  assume "NewSocket upgrade opts = Ok c"
  then show "HeartbeatFailTimes c = 0"
    by (auto simp: NewSocket_def upGrader_def Let_def split: sum.splits if_splits)
next
  assume "HeartbeatFailTimes s' = 0 \<and> sint (heartbeatFailMaxTimes (option s')) < 2 ^ 63 - 1"
  then show "0 \<le> sint (HeartbeatFailTimes (fst (heartbeat_loop ticks s')))"
    by (intro heartbeat_loop_nonneg) simp_all
next
  assume a: "(\<forall>t\<in>set fs. probe_fails t) \<and> (\<forall>t\<in>set ks. \<not> probe_fails t) \<and>
    0 \<le> sint (HeartbeatFailTimes s) \<and>
    sint (HeartbeatFailTimes s) + int (length fs) \<le> sint (heartbeatFailMaxTimes (option s))"
  define k where "k = nat (sint (heartbeatFailMaxTimes (option s)) - sint (HeartbeatFailTimes s)) + 1"
  have less: "length fs < k"
    unfolding k_def using a by linarith
  have "sint (heartbeatFailMaxTimes (option s)) < 2 ^ 63"
    using sint_lt [of "heartbeatFailMaxTimes (option s)"] by simp
  then have bound: "sint (HeartbeatFailTimes s) + int (min k (length fs)) < 2 ^ 63"
    using a less by simp
  have fails: "\<forall>t\<in>set fs. probe_fails t" and oks: "\<forall>t\<in>set ks. \<not> probe_fails t"
    using a by simp_all
  obtain s1 ex where r1: "heartbeat_loop fs s = (s1, ex)"
    by (cases "heartbeat_loop fs s")
  have ex: "ex = Waiting" and c1: "sint (HeartbeatFailTimes s1) = sint (HeartbeatFailTimes s) + int (length fs)"
    using heartbeat_loop_all_fail [OF fails k_def bound] less r1 by simp_all
  have pos: "0 \<le> sint (HeartbeatFailTimes s1)"
    using a c1 by simp
  have whole: "heartbeat_loop (fs @ ks) s = heartbeat_loop ks s1"
    by (simp add: heartbeat_loop_append r1 ex)
  show "snd (heartbeat_loop (fs @ ks) s) = Waiting"
    using heartbeat_loop_all_success [OF oks pos] whole by simp
  show "sint (HeartbeatFailTimes (fst (heartbeat_loop (fs @ ks) s))) =
      max (sint (HeartbeatFailTimes s) + int (length fs) - int (length ks)) 0"
    using heartbeat_loop_all_success [OF oks pos] whole c1 by simp
qed

theorem heartbeat_counter_recovers_witness:
  "NewSocket (Inr 0) [] =
     Ok \<lparr>Conn = 0, option = defaultOption zeroOption, Send = 20480,
        HeartbeatFailTimes = 0, trace = []\<rparr> \<and>
   snd (heartbeat_loop
       ([\<lparr>now = 10, deadline_err = None, write_err = Some ''timeout''\<rparr>,
        \<lparr>now = 20, deadline_err = Some ''closed'', write_err = None\<rparr>,
        \<lparr>now = 30, deadline_err = None, write_err = Some ''timeout''\<rparr>] @
        [\<lparr>now = 40, deadline_err = None, write_err = None\<rparr>,
        \<lparr>now = 50, deadline_err = None, write_err = None\<rparr>])
       \<lparr>Conn = 0, option = defaultOption zeroOption, Send = 20480,
        HeartbeatFailTimes = 0, trace = []\<rparr>) = Waiting \<and>
   sint (HeartbeatFailTimes (fst (heartbeat_loop
       ([\<lparr>now = 10, deadline_err = None, write_err = Some ''timeout''\<rparr>,
        \<lparr>now = 20, deadline_err = Some ''closed'', write_err = None\<rparr>,
        \<lparr>now = 30, deadline_err = None, write_err = Some ''timeout''\<rparr>] @
        [\<lparr>now = 40, deadline_err = None, write_err = None\<rparr>,
        \<lparr>now = 50, deadline_err = None, write_err = None\<rparr>])
       \<lparr>Conn = 0, option = defaultOption zeroOption, Send = 20480,
        HeartbeatFailTimes = 0, trace = []\<rparr>))) = 1"
proof -
  let ?c = "\<lparr>Conn = 0, option = defaultOption zeroOption, Send = 20480,
        HeartbeatFailTimes = 0, trace = []\<rparr>"
  let ?fs = "[\<lparr>now = 10, deadline_err = None, write_err = Some ''timeout''\<rparr>,
        \<lparr>now = 20, deadline_err = Some ''closed'', write_err = None\<rparr>,
        \<lparr>now = 30, deadline_err = None, write_err = Some ''timeout''\<rparr>]"
  let ?ks = "[\<lparr>now = 40, deadline_err = None, write_err = None\<rparr>,
        \<lparr>now = 50, deadline_err = None, write_err = None\<rparr>]"
  have new: "NewSocket (Inr 0) [] = Ok ?c"
    by (simp add: NewSocket_def upGrader_def defaultOption_def zeroOption_def Second_def)
  have m: "heartbeatFailMaxTimes (option ?c) = 4"
    by (simp add: defaultOption_def zeroOption_def)
  have run: "(\<forall>t\<in>set ?fs. probe_fails t) \<and> (\<forall>t\<in>set ?ks. \<not> probe_fails t) \<and>
      0 \<le> sint (HeartbeatFailTimes ?c) \<and>
      sint (HeartbeatFailTimes ?c) + int (length ?fs) \<le> sint (heartbeatFailMaxTimes (option ?c))"
    unfolding m by (simp add: probe_fails_def send_result_def)
  have fresh: "HeartbeatFailTimes ?c = 0 \<and> sint (heartbeatFailMaxTimes (option ?c)) < 2 ^ 63 - 1"
    unfolding m by simp
  from heartbeat_counter_recovers [of "Inr 0" "[]" ?c ?fs ?ks ?c ?c "?fs @ ?ks"] new run fresh
  have "snd (heartbeat_loop (?fs @ ?ks) ?c) = Waiting \<and>
    sint (HeartbeatFailTimes (fst (heartbeat_loop (?fs @ ?ks) ?c))) =
      max (sint (HeartbeatFailTimes ?c) + int (length ?fs) - int (length ?ks)) 0"
    by blast
  with new show ?thesis
    by (simp del: heartbeat_loop.simps)
qed

text \<open>
  Claim C10. When no option of the list gives a ping payload, the payload of the session
  is the empty string, and every frame the heartbeat writes is a ping with the empty
  payload.
\<close>

theorem default_ping_payload_is_empty:
  assumes "NewSocket upgrade (map mutator ss) = Ok c"
    and "list_all (\<lambda>x. asPingMsg x = None) ss"
  shows "pingMsg (option c) = [] \<and>
    list_all (\<lambda>e. is_write e \<longrightarrow> e = WriteMessage PingMessage [])
      (trace (fst (heartbeat t0 ticks c)))"
proof -
  have msg: "pingMsg (option c) = []"
    using NewSocket_Ok [OF assms(1)] lastSet_None [OF assms(2)]
    by (simp add: defaultOption_fields foldl_mutators zeroOption_def)
  have "list_all (\<lambda>e. is_write e \<longrightarrow> e = WriteMessage PingMessage (pingMsg (option c))) (trace c)"
    using NewSocket_Ok [OF assms(1)] by simp
  from heartbeat_writes [OF this] msg show ?thesis
    by simp
qed

theorem default_ping_payload_is_empty_witness:
  "list_all (\<lambda>e. is_write e \<longrightarrow> e = WriteMessage PingMessage [])
     (trace (fst (heartbeat 0
       [\<lparr>now = 10, deadline_err = None, write_err = None\<rparr>,
        \<lparr>now = 20, deadline_err = None, write_err = Some ''timeout''\<rparr>]
       \<lparr>Conn = 0,
        option = \<lparr>writeReadBufferSize = 20480, heartbeatFailMaxTimes = 4,
          writeDeadline = 35000000000, readDeadline = 30000000000,
          pingPeriod = 5, pingMsg = []\<rparr>,
        Send = 20480, HeartbeatFailTimes = 0, trace = []\<rparr>))) \<and>
   trace (fst (heartbeat 0
       [\<lparr>now = 10, deadline_err = None, write_err = None\<rparr>,
        \<lparr>now = 20, deadline_err = None, write_err = Some ''timeout''\<rparr>]
       \<lparr>Conn = 0,
        option = \<lparr>writeReadBufferSize = 20480, heartbeatFailMaxTimes = 4,
          writeDeadline = 35000000000, readDeadline = 30000000000,
          pingPeriod = 5, pingMsg = []\<rparr>,
        Send = 20480, HeartbeatFailTimes = 0, trace = []\<rparr>)) =
     [NewTicker 5, SetReadDeadline (Some 30000000000), SetPongHandler,
      Lock, SetWriteDeadline 35000000010, WriteMessage 9 [], Unlock,
      Lock, SetWriteDeadline 35000000020, WriteMessage 9 [], Unlock]"
proof -
  let ?c = "\<lparr>Conn = 0,
        option = \<lparr>writeReadBufferSize = 20480, heartbeatFailMaxTimes = 4,
          writeDeadline = 35000000000, readDeadline = 30000000000,
          pingPeriod = 5, pingMsg = []\<rparr>,
        Send = 20480, HeartbeatFailTimes = 0, trace = []\<rparr>"
  let ?ticks = "[\<lparr>now = 10, deadline_err = None, write_err = None\<rparr>,
        \<lparr>now = 20, deadline_err = None, write_err = Some ''timeout''\<rparr>]"
  have new: "NewSocket (Inr 0) (map mutator [OptPingPeriod 5]) = Ok ?c"
    by (simp add: NewSocket_def upGrader_def defaultOption_def zeroOption_def Second_def
        WithPingPeriod_def)
  have none: "list_all (\<lambda>x. asPingMsg x = None) [OptPingPeriod 5]"
    by simp
  have run: "trace (fst (heartbeat 0 ?ticks ?c)) =
     [NewTicker 5, SetReadDeadline (Some 30000000000), SetPongHandler,
      Lock, SetWriteDeadline 35000000010, WriteMessage 9 [], Unlock,
      Lock, SetWriteDeadline 35000000020, WriteMessage 9 [], Unlock]"
    by (simp add: heartbeat_def SendMessage_eq send_events_def send_result_def emit_def
        Add_def PingMessage_def)
  from default_ping_payload_is_empty [OF new none, of 0 ?ticks] run show ?thesis
    by blast
qed

text \<open>
  Claim C3, amended. No session has a read deadline of 0. In a session constructed with
  the read deadline option set to 0 the read deadline is the default of 30 s, and a pong
  moves the deadline of the connection to 30 s after the pong. A pong clears the
  deadline exactly when the last setting of the option is not 0 and at most one
  nanosecond.
\<close>

theorem pong_rearms_or_clears_read_deadline:
  assumes "NewSocket upgrade (map mutator ss) = Ok c"
  shows "readDeadline (option c) \<noteq> 0 \<and>
    (lastSet asReadDeadline ss = Some 0 \<longrightarrow>
      pongHandler t receivedPong c = (emit [SetReadDeadline (Some (t + 30000000000))] c, None)) \<and>
    (pongHandler t receivedPong c = (emit [SetReadDeadline None] c, None)) =
      (case lastSet asReadDeadline ss of Some d \<Rightarrow> d \<noteq> 0 \<and> sint d \<le> 1 | None \<Rightarrow> False)"
proof -
  have rd: "readDeadline (option c) = or_default (30 * Second) (lastSet asReadDeadline ss)"
    using NewSocket_Ok [OF assms]
    by (simp add: defaultOption_fields foldl_mutators zeroOption_def or_default_def
        split: option.splits)
  have s30: "sint (30 * Second) = 30000000000"
    by (simp add: Second_def)
  have n30: "30 * Second \<noteq> 0"
    by (simp add: Second_def)
  show ?thesis
    by (simp add: rd s30 n30 pongHandler_def or_default_def Nanosecond_def Add_def emit_inject
        split: option.splits)
qed

theorem pong_rearms_or_clears_read_deadline_witness:
  "pongHandler 100 []
     \<lparr>Conn = 0,
        option = \<lparr>writeReadBufferSize = 20480, heartbeatFailMaxTimes = 4,
          writeDeadline = 35000000000, readDeadline = 1,
          pingPeriod = 20000000000, pingMsg = []\<rparr>,
        Send = 20480, HeartbeatFailTimes = 0, trace = []\<rparr> =
     (\<lparr>Conn = 0,
        option = \<lparr>writeReadBufferSize = 20480, heartbeatFailMaxTimes = 4,
          writeDeadline = 35000000000, readDeadline = 1,
          pingPeriod = 20000000000, pingMsg = []\<rparr>,
        Send = 20480, HeartbeatFailTimes = 0, trace = [SetReadDeadline None]\<rparr>, None) \<and>
   pongHandler 200 []
     \<lparr>Conn = 0,
        option = \<lparr>writeReadBufferSize = 20480, heartbeatFailMaxTimes = 4,
          writeDeadline = 35000000000, readDeadline = 30000000000,
          pingPeriod = 20000000000, pingMsg = []\<rparr>,
        Send = 20480, HeartbeatFailTimes = 0, trace = []\<rparr> =
     (\<lparr>Conn = 0,
        option = \<lparr>writeReadBufferSize = 20480, heartbeatFailMaxTimes = 4,
          writeDeadline = 35000000000, readDeadline = 30000000000,
          pingPeriod = 20000000000, pingMsg = []\<rparr>,
        Send = 20480, HeartbeatFailTimes = 0, trace = [SetReadDeadline (Some 30000000200)]\<rparr>, None)"
proof -
  let ?c1 = "\<lparr>Conn = 0,
        option = \<lparr>writeReadBufferSize = 20480, heartbeatFailMaxTimes = 4,
          writeDeadline = 35000000000, readDeadline = 1,
          pingPeriod = 20000000000, pingMsg = []\<rparr>,
        Send = 20480, HeartbeatFailTimes = 0, trace = []\<rparr>"
  let ?c0 = "\<lparr>Conn = 0,
        option = \<lparr>writeReadBufferSize = 20480, heartbeatFailMaxTimes = 4,
          writeDeadline = 35000000000, readDeadline = 30000000000,
          pingPeriod = 20000000000, pingMsg = []\<rparr>,
        Send = 20480, HeartbeatFailTimes = 0, trace = []\<rparr>"
  have new1: "NewSocket (Inr 0) (map mutator [OptReadDeadline 1]) = Ok ?c1"
    by (simp add: NewSocket_def upGrader_def defaultOption_def zeroOption_def Second_def
        WithReadDeadline_def)
  have new0: "NewSocket (Inr 0) (map mutator [OptReadDeadline 0]) = Ok ?c0"
    by (simp add: NewSocket_def upGrader_def defaultOption_def zeroOption_def Second_def
        WithReadDeadline_def)
  from pong_rearms_or_clears_read_deadline [OF new1, of 100 "[]"]
  have clear: "pongHandler 100 [] ?c1 = (emit [SetReadDeadline None] ?c1, None)"
    by simp
  from pong_rearms_or_clears_read_deadline [OF new0, of 200 "[]"]
  have rearm: "pongHandler 200 [] ?c0 = (emit [SetReadDeadline (Some (200 + 30000000000))] ?c0, None)"
    by simp
  from clear rearm show ?thesis
    by (simp add: emit_def)
qed

text \<open>
  With the option at 0, the pong handler sets a deadline 30 s ahead and does not
  clear it.
\<close>

theorem pong_after_zero_read_deadline:
  "NewSocket (Inr 0) [WithReadDeadline 0] =
     Ok \<lparr>Conn = 0,
        option = \<lparr>writeReadBufferSize = 20480, heartbeatFailMaxTimes = 4,
          writeDeadline = 35000000000, readDeadline = 30000000000,
          pingPeriod = 20000000000, pingMsg = []\<rparr>,
        Send = 20480, HeartbeatFailTimes = 0, trace = []\<rparr> \<and>
   pongHandler 100 []
     \<lparr>Conn = 0,
        option = \<lparr>writeReadBufferSize = 20480, heartbeatFailMaxTimes = 4,
          writeDeadline = 35000000000, readDeadline = 30000000000,
          pingPeriod = 20000000000, pingMsg = []\<rparr>,
        Send = 20480, HeartbeatFailTimes = 0, trace = []\<rparr> =
     (\<lparr>Conn = 0,
        option = \<lparr>writeReadBufferSize = 20480, heartbeatFailMaxTimes = 4,
          writeDeadline = 35000000000, readDeadline = 30000000000,
          pingPeriod = 20000000000, pingMsg = []\<rparr>,
        Send = 20480, HeartbeatFailTimes = 0, trace = [SetReadDeadline (Some 30000000100)]\<rparr>, None)"
  by (simp add: NewSocket_def upGrader_def defaultOption_def zeroOption_def Second_def
      WithReadDeadline_def pongHandler_def Nanosecond_def Add_def emit_def)

subsection \<open>Construction\<close>

text \<open>
  Claim C4, amended. For every list of the named options, each of the five fields with a
  default is resolved on its own: a field that no option sets, or whose last setting is
  0, has its default (20 s, 35 s, 30 s, 20480, 4); a field whose last setting is not 0
  keeps that setting.
\<close>

theorem defaults_fill_zero_fields:
  assumes "NewSocket upgrade (map mutator ss) = Ok c"
  shows "pingPeriod (option c) = or_default (20 * Second) (lastSet asPingPeriod ss) \<and>
    writeDeadline (option c) = or_default (35 * Second) (lastSet asWriteDeadline ss) \<and>
    readDeadline (option c) = or_default (30 * Second) (lastSet asReadDeadline ss) \<and>
    writeReadBufferSize (option c) = or_default 20480 (lastSet asWriteReadBufferSize ss) \<and>
    heartbeatFailMaxTimes (option c) = or_default 4 (lastSet asHeartbeatFailMaxTimes ss)"
  using NewSocket_Ok [OF assms]
  by (simp add: defaultOption_fields foldl_mutators zeroOption_def or_default_def
      split: option.splits)

theorem defaults_fill_zero_fields_witness:
  "NewSocket (Inr 0) (map mutator [OptPingPeriod 5, OptReadDeadline 0, OptPingPeriod 7]) =
     Ok \<lparr>Conn = 0,
        option = \<lparr>writeReadBufferSize = 20480, heartbeatFailMaxTimes = 4,
          writeDeadline = 35000000000, readDeadline = 30000000000,
          pingPeriod = 7, pingMsg = []\<rparr>,
        Send = 20480, HeartbeatFailTimes = 0, trace = []\<rparr> \<and>
   pingPeriod (option \<lparr>Conn = 0,
        option = \<lparr>writeReadBufferSize = 20480, heartbeatFailMaxTimes = 4,
          writeDeadline = 35000000000, readDeadline = 30000000000,
          pingPeriod = 7, pingMsg = []\<rparr>,
        Send = 20480, HeartbeatFailTimes = 0, trace = []\<rparr>) =
     or_default (20 * Second) (lastSet asPingPeriod [OptPingPeriod 5, OptReadDeadline 0, OptPingPeriod 7])"
proof -
  let ?ss = "[OptPingPeriod 5, OptReadDeadline 0, OptPingPeriod 7]"
  let ?c = "\<lparr>Conn = 0,
        option = \<lparr>writeReadBufferSize = 20480, heartbeatFailMaxTimes = 4,
          writeDeadline = 35000000000, readDeadline = 30000000000,
          pingPeriod = 7, pingMsg = []\<rparr>,
        Send = 20480, HeartbeatFailTimes = 0, trace = []\<rparr>"
  have new: "NewSocket (Inr 0) (map mutator ?ss) = Ok ?c"
    by (simp add: NewSocket_def upGrader_def defaultOption_def zeroOption_def Second_def
        WithReadDeadline_def WithPingPeriod_def)
  from defaults_fill_zero_fields [OF new] new show ?thesis
    by blast
qed

text \<open>
  A field set to 0 by its option does not keep the 0: the read deadline set to 0 is
  30 s in the session.
\<close>

theorem explicit_zero_is_overwritten:
  "NewSocket (Inr 0) [WithReadDeadline 0] =
     Ok \<lparr>Conn = 0,
        option = \<lparr>writeReadBufferSize = 20480, heartbeatFailMaxTimes = 4,
          writeDeadline = 35000000000, readDeadline = 30000000000,
          pingPeriod = 20000000000, pingMsg = []\<rparr>,
        Send = 20480, HeartbeatFailTimes = 0, trace = []\<rparr>"
  by (simp add: NewSocket_def upGrader_def defaultOption_def zeroOption_def Second_def
      WithReadDeadline_def)

subsection \<open>SendMessage and the configuration\<close>

text \<open>
  Claim C7. \<open>SendMessage\<close> takes the lock, sets the write deadline to the time of
  the call plus the configured \<open>writeDeadline\<close>, and then: if setting the deadline
  fails it writes nothing, releases the lock and returns that error; otherwise it writes
  the one frame of the given type and payload, releases the lock and returns what the
  write returned, an error or none. Nothing is tried twice.
\<close>

theorem SendMessage_steps:
  "(deadline_err env = Some err \<longrightarrow>
      SendMessage env messageType message s =
        (emit [Lock, SetWriteDeadline (now env + sint (writeDeadline (option s))), Unlock] s,
         Some err)) \<and>
   (deadline_err env = None \<longrightarrow>
      SendMessage env messageType message s =
        (emit [Lock, SetWriteDeadline (now env + sint (writeDeadline (option s))),
               WriteMessage messageType message, Unlock] s,
         write_err env))"
  by (simp add: SendMessage_eq send_events_def send_result_def Add_def)

theorem SendMessage_steps_witness:
  "SendMessage \<lparr>now = 100, deadline_err = Some ''closed'', write_err = None\<rparr> 1 ''hello''
     \<lparr>Conn = 0, option = defaultOption zeroOption, Send = 20480,
        HeartbeatFailTimes = 0, trace = []\<rparr> =
     (\<lparr>Conn = 0, option = defaultOption zeroOption, Send = 20480, HeartbeatFailTimes = 0,
         trace = [Lock, SetWriteDeadline 35000000100, Unlock]\<rparr>, Some ''closed'') \<and>
   SendMessage \<lparr>now = 100, deadline_err = None, write_err = Some ''timeout''\<rparr> 1 ''hello''
     \<lparr>Conn = 0, option = defaultOption zeroOption, Send = 20480,
        HeartbeatFailTimes = 0, trace = []\<rparr> =
     (\<lparr>Conn = 0, option = defaultOption zeroOption, Send = 20480, HeartbeatFailTimes = 0,
         trace = [Lock, SetWriteDeadline 35000000100, WriteMessage 1 ''hello'', Unlock]\<rparr>,
      Some ''timeout'')"
  using SendMessage_steps [of "\<lparr>now = 100, deadline_err = Some ''closed'', write_err = None\<rparr>"
      "''closed''" 1 "''hello''" "\<lparr>Conn = 0, option = defaultOption zeroOption, Send = 20480,
        HeartbeatFailTimes = 0, trace = []\<rparr>"]
    SendMessage_steps [of "\<lparr>now = 100, deadline_err = None, write_err = Some ''timeout''\<rparr>"
      "''x''" 1 "''hello''" "\<lparr>Conn = 0, option = defaultOption zeroOption, Send = 20480,
        HeartbeatFailTimes = 0, trace = []\<rparr>"]
  by (simp add: emit_def defaultOption_def zeroOption_def Second_def)

text \<open>
  Claim C9. \<open>SendMessage\<close>, \<open>ReadPump\<close>, the heartbeat (its loop over any
  number of ticks, and the whole function) and the pong handler leave the session's
  configuration as it was.
\<close>

theorem configuration_is_immutable:
  "option (fst (SendMessage env messageType message s)) = option s \<and>
   option (client (fst (ReadPump handler rs s x))) = option s \<and>
   option (fst (heartbeat_loop ticks s)) = option s \<and>
   option (fst (heartbeat t0 ticks s)) = option s \<and>
   option (fst (pongHandler t receivedPong s)) = option s"
  by (simp add: SendMessage_eq ReadPump_option heartbeat_loop_frame heartbeat_option
      pongHandler_def)

subsection \<open>ReadPump\<close>

text \<open>
  Claim C5. When the loop does not panic (the case of a panic is C6), for every list of
  frames read before the first read error: \<open>ReadPump\<close> calls \<open>OnMessage\<close> once
  for each frame, in the order of arrival, each call on the handler state the one before
  left; it then calls \<open>OnError\<close> once with the error and returns, having read once
  for each frame and once for the error, whatever the connection would have delivered
  afterwards. While no read has failed, the frames read so far have been delivered in
  order and the loop is in its next read.
\<close>

theorem ReadPump_delivers_in_order:
  assumes "\<not> is_fault (snd (ReadPump_loop handler (map frame fs @ ReadFail err # rest) (start s x)))"
  shows "ReadPump handler (map frame fs @ ReadFail err # rest) s x =
      (\<lparr>client = emit (replicate (Suc (length fs)) ReadMessage) s,
         calls = map deliver fs @ [CallOnError err],
         hstate = fst (OnError handler err (handle_all handler x fs))\<rparr>, Returned) \<and>
    ReadPump handler (map frame fs) s x =
      (\<lparr>client = emit (replicate (length fs) ReadMessage) s,
         calls = map deliver fs,
         hstate = handle_all handler x fs\<rparr>, StillReading)"
proof -
  let ?p = "\<lparr>client = emit (replicate (length fs) ReadMessage) s,
    calls = map deliver fs, hstate = handle_all handler x fs\<rparr>"
  have frames: "ReadPump_loop handler (map frame fs @ rs') (start s x) =
      ReadPump_loop handler rs' ?p" for rs'
    using ReadPump_loop_frames_ok [OF assms, of rs'] by (simp add: start_def)
  obtain y w where y: "OnError handler err (handle_all handler x fs) = (y, w)"
    by (cases "OnError handler err (handle_all handler x fs)")
  have w: "w = None"
  proof (cases w)
    case None
    then show ?thesis .
  next
    case (Some v)
    have "ReadPump_loop handler (ReadFail err # rest) ?p =
        (?p\<lparr>client := emit [ReadMessage] (client ?p),
           calls := calls ?p @ [CallOnError err], hstate := y\<rparr>, Panicking v)"
      using y Some by (simp add: Let_def)
    then have "is_fault (snd (ReadPump_loop handler (map frame fs @ ReadFail err # rest) (start s x)))"
      unfolding frames by (simp add: is_fault_def)
    then show ?thesis
      using assms by simp
  qed
  have "ReadPump_loop handler (ReadFail err # rest) ?p =
      (\<lparr>client = emit (replicate (Suc (length fs)) ReadMessage) s,
         calls = map deliver fs @ [CallOnError err],
         hstate = fst (OnError handler err (handle_all handler x fs))\<rparr>, Break)"
    using y w by (simp add: Let_def emit_emit replicate_append_same)
  then have "ReadPump_loop handler (map frame fs @ ReadFail err # rest) (start s x) =
      (\<lparr>client = emit (replicate (Suc (length fs)) ReadMessage) s,
         calls = map deliver fs @ [CallOnError err],
         hstate = fst (OnError handler err (handle_all handler x fs))\<rparr>, Break)"
    unfolding frames .
  moreover have "ReadPump_loop handler (map frame fs) (start s x) =
      (\<lparr>client = emit (replicate (length fs) ReadMessage) s,
         calls = map deliver fs,
         hstate = handle_all handler x fs\<rparr>, Reading)"
    using frames [of "[]"] by simp
  ultimately show ?thesis
    by (simp add: ReadPump_def start_def)
qed

theorem ReadPump_delivers_in_order_witness:
  "ReadPump
     \<lparr>OnMessage = (\<lambda>mt d n. (Suc n, None)), OnError = (\<lambda>err n. (n + 10, None)),
        OnClose = (\<lambda>n. (n, None))\<rparr>
     [ReadOk 1 ''a'', ReadOk 2 ''b'', ReadFail ''EOF'', ReadOk 1 ''c'']
     \<lparr>Conn = 0,
        option = \<lparr>writeReadBufferSize = 20480, heartbeatFailMaxTimes = 4,
          writeDeadline = 35000000000, readDeadline = 30000000000,
          pingPeriod = 20000000000, pingMsg = []\<rparr>,
        Send = 20480, HeartbeatFailTimes = 0, trace = []\<rparr> (0 :: nat) =
     (\<lparr>client = \<lparr>Conn = 0,
        option = \<lparr>writeReadBufferSize = 20480, heartbeatFailMaxTimes = 4,
          writeDeadline = 35000000000, readDeadline = 30000000000,
          pingPeriod = 20000000000, pingMsg = []\<rparr>,
        Send = 20480, HeartbeatFailTimes = 0, trace = [ReadMessage, ReadMessage, ReadMessage]\<rparr>,
        calls = [CallOnMessage 1 ''a'', CallOnMessage 2 ''b'', CallOnError ''EOF''],
        hstate = 12\<rparr>, Returned)"
proof -
  let ?h = "\<lparr>OnMessage = (\<lambda>mt d n. (Suc n, None)), OnError = (\<lambda>err n. (n + 10, None)),
        OnClose = (\<lambda>n. (n, None))\<rparr>"
  let ?c = "\<lparr>Conn = 0,
        option = \<lparr>writeReadBufferSize = 20480, heartbeatFailMaxTimes = 4,
          writeDeadline = 35000000000, readDeadline = 30000000000,
          pingPeriod = 20000000000, pingMsg = []\<rparr>,
        Send = 20480, HeartbeatFailTimes = 0, trace = []\<rparr>"
  have ok: "\<not> is_fault (snd (ReadPump_loop ?h
      (map frame [(1, ''a''), (2, ''b'')] @ ReadFail ''EOF'' # [ReadOk 1 ''c'']) (start ?c 0)))"
    by (simp add: frame_def start_def is_fault_def)
  from ReadPump_delivers_in_order [OF ok]
  show ?thesis
    by (simp add: frame_def deliver_def handle_all_def emit_def)
qed

text \<open>
  Claim C6. \<open>ReadPump\<close> calls \<open>OnClose\<close> if and only if its loop ended by a
  panic, of the read or of a call of the handler; it then calls \<open>OnError\<close> with the
  value of the panic, \<open>OnClose\<close>, and returns. This is for a handler that returns
  from these two calls of the deferred function. When the loop ended by a read error
  the last call is the \<open>OnError\<close> of the loop, \<open>OnClose\<close> is not called, and
  \<open>ReadPump\<close> returns.
\<close>

theorem OnClose_only_after_fault:
  assumes "ReadPump_loop handler rs (start s x) = (p, ex)"
    and "\<forall>v. ex = Panicking v \<longrightarrow>
      snd (OnError handler v (hstate p)) = None \<and>
      snd (OnClose handler (fst (OnError handler v (hstate p)))) = None"
  shows "(CallOnClose \<in> set (calls (fst (ReadPump handler rs s x)))) = is_fault ex \<and>
    (ex = Panicking v \<longrightarrow>
       calls (fst (ReadPump handler rs s x)) = calls p @ [CallOnError v, CallOnClose] \<and>
       snd (ReadPump handler rs s x) = Returned) \<and>
    (ex = Break \<longrightarrow>
       calls (fst (ReadPump handler rs s x)) = calls p \<and>
       (\<exists>err. calls p \<noteq> [] \<and> last (calls p) = CallOnError err) \<and>
       snd (ReadPump handler rs s x) = Returned)"
proof -
  have none: "CallOnClose \<notin> set (calls p)"
    using ReadPump_loop_no_close [of "start s x" handler rs] assms(1) by (simp add: start_def)
  have brk: "\<exists>err. calls p \<noteq> [] \<and> last (calls p) = CallOnError err" if "ex = Break"
    using ReadPump_loop_break [of handler rs "start s x"] assms(1) that by simp
  have run: "ReadPump handler rs s x =
      (p\<lparr>calls := calls p @ [CallOnError w, CallOnClose],
         hstate := fst (OnClose handler (fst (OnError handler w (hstate p))))\<rparr>, Returned)"
    if "ex = Panicking w" for w
  proof -
    have "snd (OnError handler w (hstate p)) = None"
      using assms(2) that by simp
    then obtain y where y: "OnError handler w (hstate p) = (y, None)"
      by (cases "OnError handler w (hstate p)") auto
    have "snd (OnClose handler y) = None"
      using assms(2) that y by simp
    then obtain z where z: "OnClose handler y = (z, None)"
      by (cases "OnClose handler y") auto
    show ?thesis
      using assms(1) [unfolded start_def] that y z by (simp add: ReadPump_def)
  qed
  have stay: "ReadPump handler rs s x = (p, if ex = Break then Returned else StillReading)"
    if "\<not> is_fault ex"
    using assms(1) [unfolded start_def] that by (cases ex) (simp_all add: ReadPump_def is_fault_def)
  show ?thesis
  proof (cases ex)
    case Break
    then show ?thesis
      using none brk stay by (simp add: is_fault_def)
  next
    case (Panicking w)
    then show ?thesis
      using run [OF Panicking] by (simp add: is_fault_def)
  next
    case Reading
    then show ?thesis
      using none stay by (simp add: is_fault_def)
  qed
qed

theorem OnClose_only_after_fault_witness:
  "calls (fst (ReadPump
     \<lparr>OnMessage = (\<lambda>mt d n. (Suc n, if d = ''boom'' then Some ''bad frame'' else None)),
        OnError = (\<lambda>err n. (n + 10, None)), OnClose = (\<lambda>n. (n + 100, None))\<rparr>
     [ReadOk 1 ''a'', ReadOk 1 ''boom'', ReadOk 1 ''c'']
     \<lparr>Conn = 0,
        option = \<lparr>writeReadBufferSize = 20480, heartbeatFailMaxTimes = 4,
          writeDeadline = 35000000000, readDeadline = 30000000000,
          pingPeriod = 20000000000, pingMsg = []\<rparr>,
        Send = 20480, HeartbeatFailTimes = 0, trace = []\<rparr> (0 :: nat))) =
     [CallOnMessage 1 ''a'', CallOnMessage 1 ''boom'', CallOnError ''bad frame'', CallOnClose] \<and>
   snd (ReadPump
     \<lparr>OnMessage = (\<lambda>mt d n. (Suc n, if d = ''boom'' then Some ''bad frame'' else None)),
        OnError = (\<lambda>err n. (n + 10, None)), OnClose = (\<lambda>n. (n + 100, None))\<rparr>
     [ReadOk 1 ''a'', ReadOk 1 ''boom'', ReadOk 1 ''c'']
     \<lparr>Conn = 0,
        option = \<lparr>writeReadBufferSize = 20480, heartbeatFailMaxTimes = 4,
          writeDeadline = 35000000000, readDeadline = 30000000000,
          pingPeriod = 20000000000, pingMsg = []\<rparr>,
        Send = 20480, HeartbeatFailTimes = 0, trace = []\<rparr> (0 :: nat)) = Returned \<and>
   calls (fst (ReadPump
     \<lparr>OnMessage = (\<lambda>mt d n. (Suc n, if d = ''boom'' then Some ''bad frame'' else None)),
        OnError = (\<lambda>err n. (n + 10, None)), OnClose = (\<lambda>n. (n + 100, None))\<rparr>
     [ReadOk 1 ''a'', ReadFail ''EOF'']
     \<lparr>Conn = 0,
        option = \<lparr>writeReadBufferSize = 20480, heartbeatFailMaxTimes = 4,
          writeDeadline = 35000000000, readDeadline = 30000000000,
          pingPeriod = 20000000000, pingMsg = []\<rparr>,
        Send = 20480, HeartbeatFailTimes = 0, trace = []\<rparr> (0 :: nat))) =
     [CallOnMessage 1 ''a'', CallOnError ''EOF'']"
proof -
  let ?h = "\<lparr>OnMessage = (\<lambda>mt d n. (Suc n, if d = ''boom'' then Some ''bad frame'' else None)),
        OnError = (\<lambda>err n. (n + 10, None)), OnClose = (\<lambda>n. (n + 100, None))\<rparr>"
  let ?c = "\<lparr>Conn = 0,
        option = \<lparr>writeReadBufferSize = 20480, heartbeatFailMaxTimes = 4,
          writeDeadline = 35000000000, readDeadline = 30000000000,
          pingPeriod = 20000000000, pingMsg = []\<rparr>,
        Send = 20480, HeartbeatFailTimes = 0, trace = []\<rparr>"
  let ?p = "\<lparr>client = emit [ReadMessage, ReadMessage] ?c,
      calls = [CallOnMessage 1 ''a'', CallOnMessage 1 ''boom''], hstate = 2 :: nat\<rparr>"
  let ?q = "\<lparr>client = emit [ReadMessage, ReadMessage] ?c,
      calls = [CallOnMessage 1 ''a'', CallOnError ''EOF''], hstate = 11 :: nat\<rparr>"
  have fault: "ReadPump_loop ?h [ReadOk 1 ''a'', ReadOk 1 ''boom'', ReadOk 1 ''c''] (start ?c 0) =
      (?p, Panicking ''bad frame'')"
    by (simp add: start_def emit_def)
  have err: "ReadPump_loop ?h [ReadOk 1 ''a'', ReadFail ''EOF''] (start ?c 0) = (?q, Break)"
    by (simp add: start_def emit_def)
  have reported: "\<forall>v. ex = Panicking v \<longrightarrow>
      snd (OnError ?h v (hstate q)) = None \<and>
      snd (OnClose ?h (fst (OnError ?h v (hstate q)))) = None" for ex and q :: "nat pump"
    by simp
  from OnClose_only_after_fault [OF fault reported, of "''bad frame''"]
    OnClose_only_after_fault [OF err reported, of "''x''"]
  show ?thesis
    by simp
qed

end
